theory Spec2Isabelle
  imports Complex_Main "HOL-Library.Sublist"
begin

section \<open>Python values and errors\<close>

text \<open>
  The three scripts of the repository are Python. Their floating-point numbers are modelled
  by the reals (exact arithmetic), their integers by \<open>int\<close> or \<open>nat\<close>, and every exception
  the modelled code can raise is a value of \<open>py_error\<close>, returned as \<open>Inl\<close>.
\<close>

datatype py_error = ZeroDivisionError | ValueError | TypeError | IndexError

text \<open>
  Float division \<open>a / b\<close> of two numbers: Python raises \<open>ZeroDivisionError\<close> for a zero
  divisor. (On NumPy arrays the division is elementwise and a zero divisor gives an
  infinity or a NaN instead, which the reals do not have.)
\<close>

definition truediv :: "real \<Rightarrow> real \<Rightarrow> py_error + real" where
  "truediv a b = (if b = 0 then Inl ZeroDivisionError else Inr (a / b))"

text \<open>Sequencing of two fallible computations: an exception of the first one propagates.\<close>

definition and_then :: "py_error + 'a \<Rightarrow> ('a \<Rightarrow> py_error + 'b) \<Rightarrow> py_error + 'b" where
  "and_then r f = (case r of Inl e \<Rightarrow> Inl e | Inr v \<Rightarrow> f v)"

section \<open>Dual-axis chart: the transform pair (two\_x\_axis/main.py)\<close>

text \<open>
  \<open>scipy.constants.k\<close>, the Boltzmann constant in J/K. The library is not part of the
  repository; the value is the exact one of the 2019 SI, which scipy ships.
\<close>

definition constants_k :: real where
  "constants_k = 1380649 / 10 ^ 29"

text \<open>
  \<^verbatim>\<open>return (constants.k * temperature) / (pressure * cross_section) * 1E6\<close>
\<close>

definition pressure_to_mean_free_path :: "real \<Rightarrow> real \<Rightarrow> real \<Rightarrow> py_error + real" where
  "pressure_to_mean_free_path temperature cross_section pressure =
     and_then (truediv (constants_k * temperature) (pressure * cross_section))
       (\<lambda>q. Inr (q * 10 ^ 6))"

text \<open>
  \<^verbatim>\<open>return (constants.k * temperature) / (mean_free_path * cross_section) * 1E-6\<close>
\<close>

definition mean_free_path_to_pressure :: "real \<Rightarrow> real \<Rightarrow> real \<Rightarrow> py_error + real" where
  "mean_free_path_to_pressure temperature cross_section mean_free_path =
     and_then (truediv (constants_k * temperature) (mean_free_path * cross_section))
       (\<lambda>q. Inr (q * (1 / 10 ^ 6)))"

text \<open>\<open>x_tranform_functions\<close> returns the two closures as a pair.\<close>

definition x_tranform_functions ::
  "real \<Rightarrow> real \<Rightarrow> (real \<Rightarrow> py_error + real) \<times> (real \<Rightarrow> py_error + real)" where
  "x_tranform_functions temperature cross_section =
     (pressure_to_mean_free_path temperature cross_section,
      mean_free_path_to_pressure temperature cross_section)"

text \<open>The defaults of the signature: \<open>temperature=400, cross_section=1E-18\<close>.\<close>

definition default_temperature :: real where
  "default_temperature = 400"

definition default_cross_section :: real where
  "default_cross_section = 1 / 10 ^ 18"

text \<open>
  The closed forms as the specification writes them, for a Boltzmann constant \<open>k\<close>,
  temperature \<open>T\<close> and cross section \<open>\<sigma>\<close>.
\<close>

definition spec_mean_free_path :: "real \<Rightarrow> real \<Rightarrow> real \<Rightarrow> real \<Rightarrow> real" where
  "spec_mean_free_path k T \<sigma> p = k * T / (p * \<sigma>) * 10 ^ 6"

definition spec_pressure :: "real \<Rightarrow> real \<Rightarrow> real \<Rightarrow> real \<Rightarrow> real" where
  "spec_pressure k T \<sigma> l = k * T / (l * \<sigma>) * (1 / 10 ^ 6)"

subsection \<open>Values of the two transforms\<close>

lemma constants_k_pos: "0 < constants_k"
  by (simp add: constants_k_def)

lemma pressure_to_mean_free_path_value:
  "pressure * cross_section \<noteq> 0 \<Longrightarrow>
   pressure_to_mean_free_path temperature cross_section pressure =
     Inr (constants_k * temperature / (pressure * cross_section) * 10 ^ 6)"
  by (simp add: pressure_to_mean_free_path_def truediv_def and_then_def)

lemma mean_free_path_to_pressure_value:
  "mean_free_path * cross_section \<noteq> 0 \<Longrightarrow>
   mean_free_path_to_pressure temperature cross_section mean_free_path =
     Inr (constants_k * temperature / (mean_free_path * cross_section) * (1 / 10 ^ 6))"
  by (simp add: mean_free_path_to_pressure_def truediv_def and_then_def)

lemma transform_raises_on_zero:
  "pressure_to_mean_free_path temperature 0 pressure = Inl ZeroDivisionError"
  "mean_free_path_to_pressure temperature 0 mean_free_path = Inl ZeroDivisionError"
  by (simp_all add: pressure_to_mean_free_path_def mean_free_path_to_pressure_def
      truediv_def and_then_def)

lemma quotient_decreasing:
  fixes c :: real
  assumes "0 < c" and "0 < s" and "0 < a" and "a < b" and "0 < f"
  shows "c / (b * s) * f < c / (a * s) * f"
proof -
  have "a * s < b * s" and "0 < a * s"
    using assms by simp_all
  then have "c / (b * s) < c / (a * s)"
    using \<open>0 < c\<close> by (simp add: divide_strict_left_mono)
  then show ?thesis
    using \<open>0 < f\<close> by (rule mult_strict_right_mono)
qed

text \<open>
  Composing the two closures does not give back the pressure: the factors \<open>1E6\<close> and
  \<open>1E-6\<close> do not cancel, they leave \<open>1E-12\<close>.
\<close>

lemma round_trip_scales:
  assumes "temperature \<noteq> 0" and "cross_section \<noteq> 0" and "p \<noteq> 0"
  shows "and_then (pressure_to_mean_free_path temperature cross_section p)
           (mean_free_path_to_pressure temperature cross_section) = Inr (p / 10 ^ 12)"
    and "and_then (mean_free_path_to_pressure temperature cross_section p)
           (pressure_to_mean_free_path temperature cross_section) = Inr (p * 10 ^ 12)"
  using assms
  by (simp_all add: pressure_to_mean_free_path_def mean_free_path_to_pressure_def
      truediv_def and_then_def constants_k_def)

subsection \<open>Claims on the transform pair\<close>

text \<open>
  C1. The claim: the two functions returned by \<open>x_tranform_functions\<close> are inverses of each
  other, so that converting a pressure \<open>p > 0\<close> to a mean free path and back returns \<open>p\<close>.
  The code does not do that. At the defaults (400 K, cross section \<open>1E-18\<close>) the pressure
  1 Pa is mapped to 5522.596 micrometres, and that mean free path is mapped back to
  \<open>1E-12\<close> Pa, not to 1 Pa.
\<close>

theorem round_trip_default_pressure_one:
  "fst (x_tranform_functions default_temperature default_cross_section) 1
     = Inr (1380649 / 250) \<and>
   snd (x_tranform_functions default_temperature default_cross_section) (1380649 / 250)
     = Inr (1 / 10 ^ 12) \<and>
   and_then (fst (x_tranform_functions default_temperature default_cross_section) 1)
     (snd (x_tranform_functions default_temperature default_cross_section)) \<noteq> Inr 1"
  by (simp add: x_tranform_functions_def pressure_to_mean_free_path_def
      mean_free_path_to_pressure_def truediv_def and_then_def constants_k_def
      default_temperature_def default_cross_section_def)

text \<open>
  C5. The closures produced by \<open>x_tranform_functions T \<sigma>\<close> compute the closed forms of the
  specification, \<open>k T / (p \<sigma>) 1e6\<close> and \<open>k T / (\<lambda> \<sigma>) 1e-6\<close>, for every nonzero pressure and
  every nonzero mean free path. (For a zero cross section the closed forms divide by
  zero; the code then raises \<open>ZeroDivisionError\<close>.)
\<close>

theorem x_tranform_functions_closed_form:
  "(pressure \<noteq> 0 \<longrightarrow>
      fst (x_tranform_functions temperature cross_section) pressure =
        (if cross_section = 0 then Inl ZeroDivisionError
         else Inr (spec_mean_free_path constants_k temperature cross_section pressure))) \<and>
   (mean_free_path \<noteq> 0 \<longrightarrow>
      snd (x_tranform_functions temperature cross_section) mean_free_path =
        (if cross_section = 0 then Inl ZeroDivisionError
         else Inr (spec_pressure constants_k temperature cross_section mean_free_path)))"
  by (simp add: x_tranform_functions_def pressure_to_mean_free_path_value
      mean_free_path_to_pressure_value transform_raises_on_zero
      spec_mean_free_path_def spec_pressure_def)

theorem x_tranform_functions_closed_form_witness:
  "(1::real) \<noteq> 0 \<and> (2::real) \<noteq> 0 \<and>
   fst (x_tranform_functions 400 (1 / 10 ^ 18)) 1 = Inr (1380649 / 250) \<and>
   snd (x_tranform_functions 400 (1 / 10 ^ 18)) 2 = Inr (1380649 / (5 * 10 ^ 14))"
  using x_tranform_functions_closed_form [of 1 400 "1 / 10 ^ 18" 2]
  by (simp add: spec_mean_free_path_def spec_pressure_def constants_k_def)

text \<open>
  C9. For a positive temperature and a positive cross section (the defaults, 400 and
  \<open>1E-18\<close>, are the ones used for the secondary axis), both transforms are strictly
  decreasing on the positive reals: a larger pressure has a smaller mean free path, and a
  larger mean free path is mapped to a smaller pressure. Both calls return.
\<close>

theorem transforms_strictly_decreasing:
  assumes "0 < temperature" and "0 < cross_section" and "0 < a" and "a < b"
  shows "\<exists>fa fb ga gb.
           pressure_to_mean_free_path temperature cross_section a = Inr fa \<and>
           pressure_to_mean_free_path temperature cross_section b = Inr fb \<and> fb < fa \<and>
           mean_free_path_to_pressure temperature cross_section a = Inr ga \<and>
           mean_free_path_to_pressure temperature cross_section b = Inr gb \<and> gb < ga"
proof -
  have kT: "0 < constants_k * temperature"
    using assms(1) constants_k_pos by simp
  have nz: "a * cross_section \<noteq> 0" "b * cross_section \<noteq> 0"
    using assms by simp_all
  have "constants_k * temperature / (b * cross_section) * 10 ^ 6
          < constants_k * temperature / (a * cross_section) * 10 ^ 6"
    using quotient_decreasing [OF kT assms(2) assms(3) assms(4), of "10 ^ 6"] by simp
  moreover have "constants_k * temperature / (b * cross_section) * (1 / 10 ^ 6)
          < constants_k * temperature / (a * cross_section) * (1 / 10 ^ 6)"
    using quotient_decreasing [OF kT assms(2) assms(3) assms(4), of "1 / 10 ^ 6"] by simp
  ultimately show ?thesis
    using nz by (simp add: pressure_to_mean_free_path_value mean_free_path_to_pressure_value)
qed

theorem transforms_strictly_decreasing_witness:
  "(0::real) < default_temperature \<and> (0::real) < default_cross_section \<and>
   (0::real) < 1 \<and> (1::real) < 2 \<and>
   (\<exists>fa fb ga gb.
      pressure_to_mean_free_path default_temperature default_cross_section 1 = Inr fa \<and>
      pressure_to_mean_free_path default_temperature default_cross_section 2 = Inr fb \<and>
      fb < fa \<and>
      mean_free_path_to_pressure default_temperature default_cross_section 1 = Inr ga \<and>
      mean_free_path_to_pressure default_temperature default_cross_section 2 = Inr gb \<and>
      gb < ga)"
proof -
  have T: "(0::real) < default_temperature" and S: "(0::real) < default_cross_section"
    by (simp_all add: default_temperature_def default_cross_section_def)
  have A: "(0::real) < 1" and B: "(1::real) < 2"
    by simp_all
  from transforms_strictly_decreasing [OF T S A B] T S A B show ?thesis
    by blast
qed

section \<open>Multi-series plotter: header extraction (plot\_one\_x\_many\_y/main.py)\<close>

subsection \<open>Strings\<close>

text \<open>
  Text is modelled as ASCII: a \<open>string\<close> is a list of 8-bit characters, \<open>str.upper\<close> maps
  the letters a to z to A to Z and leaves every other character alone, and the whitespace
  of \<open>str.split()\<close> is the ASCII whitespace of Python (tab, line feed, vertical tab, form
  feed, carriage return, the separators 0x1C to 0x1F and the space). Python's tables for
  characters beyond ASCII are not modelled: there \<open>str.upper\<close> changes further cased
  characters and \<open>str.split()\<close> splits on further spaces (the no-break space, the next-line
  character), so on text that is not ASCII these functions are not Python's.
\<close>

definition ascii_lowercase :: string where
  "ascii_lowercase = ''abcdefghijklmnopqrstuvwxyz''"

definition ascii_uppercase :: string where
  "ascii_uppercase = ''ABCDEFGHIJKLMNOPQRSTUVWXYZ''"


definition whitespace :: string where
  "whitespace = [CHR 0x09, CHR 0x0A, CHR 0x0B, CHR 0x0C, CHR 0x0D,
                 CHR 0x1C, CHR 0x1D, CHR 0x1E, CHR 0x1F, CHR 0x20]"

definition isspace :: "char \<Rightarrow> bool" where
  "isspace c = (c \<in> set whitespace)"

definition upper_char :: "char \<Rightarrow> char" where
  "upper_char c = (case map_of (zip ascii_lowercase ascii_uppercase) c of
                     None \<Rightarrow> c | Some u \<Rightarrow> u)"

definition str_upper :: "string \<Rightarrow> string" where
  "str_upper s = map upper_char s"

text \<open>
  \<open>s.split()\<close> with no separator: runs of whitespace separate the words, and leading and
  trailing whitespace gives no empty word. As CPython does, skip the whitespace, then take
  the word up to the next whitespace.
\<close>

function split_whitespace :: "string \<Rightarrow> string list" where
  "split_whitespace s =
     (if dropWhile isspace s = [] then []
      else takeWhile (\<lambda>c. \<not> isspace c) (dropWhile isspace s)
             # split_whitespace (dropWhile (\<lambda>c. \<not> isspace c) (dropWhile isspace s)))"
  by pat_completeness auto
termination
proof (relation "measure length")
  fix s :: string
  assume ne: "dropWhile isspace s \<noteq> []"
  then have "\<not> isspace (hd (dropWhile isspace s))"
    by (rule hd_dropWhile)
  then have "dropWhile (\<lambda>c. \<not> isspace c) (dropWhile isspace s)
      = dropWhile (\<lambda>c. \<not> isspace c) (tl (dropWhile isspace s))"
    using ne by (cases "dropWhile isspace s") simp_all
  then have "length (dropWhile (\<lambda>c. \<not> isspace c) (dropWhile isspace s))
      = length (dropWhile (\<lambda>c. \<not> isspace c) (tl (dropWhile isspace s)))"
    by (rule arg_cong)
  also have "\<dots> \<le> length (tl (dropWhile isspace s))"
    by (rule length_dropWhile_le)
  also have "\<dots> < length (dropWhile isspace s)"
    using ne by simp
  also have "\<dots> \<le> length s"
    by (rule length_dropWhile_le)
  finally show "(dropWhile (\<lambda>c. \<not> isspace c) (dropWhile isspace s), s) \<in> measure length"
    by simp
qed simp

declare split_whitespace.simps [simp del]

text \<open>\<open>s.find(sep)\<close>: the lowest index at which \<open>sep\<close> occurs in \<open>s\<close>, if any.\<close>

fun str_find :: "string \<Rightarrow> string \<Rightarrow> nat option" where
  "str_find sep [] = (if sep = [] then Some 0 else None)"
| "str_find sep (c # cs) =
     (if prefix sep (c # cs) then Some 0 else map_option Suc (str_find sep cs))"

lemma str_find_le: "str_find sep s = Some i \<Longrightarrow> i + length sep \<le> length s"
proof (induction s arbitrary: i)
  case Nil
  then show ?case by (simp split: if_splits)
next
  case (Cons c cs)
  then show ?case
    by (auto split: if_splits dest: prefix_length_le)
qed

text \<open>
  \<open>s.split(sep)\<close> for a separator that is not empty: cut at the leftmost occurrence and
  go on behind it; empty words are kept. The branch for the empty separator is never
  taken by \<open>str_split\<close>, which raises before; it makes the recursion terminate.
\<close>

function split_sep :: "string \<Rightarrow> string \<Rightarrow> string list" where
  "split_sep sep s =
     (case str_find sep s of
        None \<Rightarrow> [s]
      | Some i \<Rightarrow> if sep = [] then [s]
                  else take i s # split_sep sep (drop (i + length sep) s))"
  by pat_completeness auto
termination
proof (relation "measure (\<lambda>(sep, s). length s)")
  fix sep s :: string and i :: nat
  assume "str_find sep s = Some i" and "sep \<noteq> []"
  then have "i + length sep \<le> length s" and "0 < length sep"
    by (simp_all add: str_find_le)
  then have "length s - (i + length sep) < length s"
    by arith
  then show "((sep, drop (i + length sep) s), (sep, s)) \<in> measure (\<lambda>(sep, s). length s)"
    by simp
qed simp

declare split_sep.simps [simp del]

text \<open>
  \<open>s.split(sep)\<close>: \<open>None\<close> is the whitespace split, and the empty separator raises
  \<open>ValueError\<close> (``empty separator'').
\<close>

definition str_split :: "string \<Rightarrow> string option \<Rightarrow> py_error + string list" where
  "str_split s sep =
     (case sep of
        None \<Rightarrow> Inr (split_whitespace s)
      | Some d \<Rightarrow> if d = [] then Inl ValueError else Inr (split_sep d s))"


text \<open>
  \<open>linecache.getlines\<close> is a library function and a parameter of the model: for a file name
  it gives the lines the library finds, each with its line terminator, or the exception
  that the library lets through. The library looks for a file under the name itself and,
  for a relative name that is no file, in the directories of the module search path;
  where it finds no file it gives the empty list. It catches the errors of opening and
  decoding a file, but on CPython 3.11 the \<open>ValueError\<close> for a name with a NUL character
  passes through it.
\<close>

type_synonym linecache = "string \<Rightarrow> py_error + string list"

text \<open>
  \<^verbatim>\<open>def getline(filename, lineno, module_globals=None):\<close>
  \<^verbatim>\<open>    lines = getlines(filename, module_globals)\<close>
  \<^verbatim>\<open>    if 1 <= lineno <= len(lines): return lines[lineno - 1]\<close>
  \<^verbatim>\<open>    return ''\<close>
\<close>

definition linecache_getline :: "linecache \<Rightarrow> string \<Rightarrow> int \<Rightarrow> py_error + string" where
  "linecache_getline getlines filename lineno =
     and_then (getlines filename)
       (\<lambda>lines. Inr (if 1 \<le> lineno \<and> lineno \<le> int (length lines)
                       then lines ! nat (lineno - 1) else []))"

text \<open>
  \<^verbatim>\<open>def get_line(file_path, header_line=0, uppercase=True, delimiter=None):\<close>
  \<^verbatim>\<open>    line = linecache.getline(file_path, header_line + 1)\<close>
  \<^verbatim>\<open>    if uppercase: line = line.upper()\<close>
  \<^verbatim>\<open>    return line.split(delimiter)\<close>
\<close>

definition get_line ::
  "linecache \<Rightarrow> string \<Rightarrow> int \<Rightarrow> bool \<Rightarrow> string option \<Rightarrow> py_error + string list" where
  "get_line getlines file_path header_line uppercase delimiter =
     and_then (linecache_getline getlines file_path (header_line + 1))
       (\<lambda>line. str_split (if uppercase then str_upper line else line) delimiter)"



definition no_such_line :: "linecache \<Rightarrow> string \<Rightarrow> int \<Rightarrow> bool" where
  "no_such_line getlines file_path header_line =
     (case getlines file_path of
        Inl e \<Rightarrow> False
      | Inr lines \<Rightarrow> \<not> (0 \<le> header_line \<and> header_line < int (length lines)))"

text \<open>
  A library state to run the model on: a three-line data file with its labels on the
  second line, a one-line file whose only line is \<open>axb,c\<close>, a name with a NUL character,
  which is refused, and no file under any other name.
\<close>

definition example_lines :: "string list" where
  "example_lines =
     [''# ion flux'' @ [CHR 0x0A],
      ''height  flux_a flux_b'' @ [CHR 0x0A],
      ''0.5 10 20'' @ [CHR 0x0A]]"

definition nul_path :: string where
  "nul_path = ''a'' @ [CHR 0x00] @ ''b''"

definition example_linecache :: linecache where
  "example_linecache filename =
     (if filename = ''example_data.pid'' then Inr example_lines
      else if filename = ''t.csv'' then Inr [''axb,c'' @ [CHR 0x0A]]
      else if filename = nul_path then Inl ValueError
      else Inr [])"

subsection \<open>Upper-casing and splitting\<close>

lemma str_upper_simps [simp]:
  "str_upper [] = []"
  "str_upper (c # cs) = upper_char c # str_upper cs"
  "str_upper s = [] \<longleftrightarrow> s = []"
  by (simp_all add: str_upper_def)










lemma str_split_empty:
  "str_split [] None = Inr []"
  "d \<noteq> [] \<Longrightarrow> str_split [] (Some d) = Inr [[]]"
  "str_split s (Some []) = Inl ValueError"
  by (simp_all add: str_split_def split_whitespace.simps [of "[]"] split_sep.simps [of _ "[]"])

lemma str_split_returns:
  "delimiter \<noteq> Some [] \<Longrightarrow> \<exists>tokens. str_split s delimiter = Inr tokens"
  by (cases delimiter) (simp_all add: str_split_def)

lemma linecache_getline_missing:
  "no_such_line getlines file_path header_line \<Longrightarrow>
   linecache_getline getlines file_path (header_line + 1) = Inr []"
  by (auto simp: no_such_line_def linecache_getline_def and_then_def split: sum.splits)


lemma linecache_getline_returns:
  "getlines file_path = Inr lines \<Longrightarrow> \<exists>line. linecache_getline getlines file_path n = Inr line"
  by (simp add: linecache_getline_def and_then_def)

lemma linecache_getline_raises:
  "getlines file_path = Inl e \<Longrightarrow> linecache_getline getlines file_path n = Inl e"
  by (simp add: linecache_getline_def and_then_def)

lemma get_line_unfold:
  "linecache_getline getlines file_path (header_line + 1) = Inr line \<Longrightarrow>
   get_line getlines file_path header_line uppercase delimiter =
     str_split (if uppercase then str_upper line else line) delimiter"
  by (simp add: get_line_def and_then_def)

lemma get_line_raises:
  "getlines file_path = Inl e \<Longrightarrow>
   get_line getlines file_path header_line uppercase delimiter = Inl e"
  by (simp add: get_line_def linecache_getline_raises and_then_def)

subsection \<open>Claims on the header extraction\<close>

text \<open>
  C3. The claim: \<open>get_line\<close> fails with a NotFoundError whenever the requested line index
  exceeds the file's line count, or the file does not exist. The code raises nothing
  there. Line index 7 of the three-line file, and any line under a name for which the
  library finds no file, both give the empty list.
\<close>

theorem get_line_past_end_returns:
  "no_such_line example_linecache ''example_data.pid'' 7 \<and>
   get_line example_linecache ''example_data.pid'' 7 True None = Inr [] \<and>
   no_such_line example_linecache ''missing.pid'' 0 \<and>
   get_line example_linecache ''missing.pid'' 0 True None = Inr []"
  by code_simp

text \<open>
  C3, as the code has it. When \<open>linecache\<close> finds no such line (it returns, and it has found
  no file under the name, neither directly nor through the module search path, or the
  line index is outside the lines of the file it has found), it yields the empty string,
  and \<open>get_line\<close> returns what splitting the empty string gives; with the default whitespace
  delimiter that is the empty list. No error of its own is raised for the missing line.
\<close>

theorem get_line_out_of_range:
  assumes "no_such_line getlines file_path header_line"
  shows "linecache_getline getlines file_path (header_line + 1) = Inr [] \<and>
         get_line getlines file_path header_line uppercase delimiter = str_split [] delimiter \<and>
         get_line getlines file_path header_line uppercase None = Inr []"
  using get_line_unfold [OF linecache_getline_missing [OF assms]]
    linecache_getline_missing [OF assms]
  by (simp add: str_split_empty)

theorem get_line_out_of_range_witness:
  "no_such_line example_linecache ''example_data.pid'' 3 \<and>
   linecache_getline example_linecache ''example_data.pid'' (3 + 1) = Inr [] \<and>
   get_line example_linecache ''example_data.pid'' 3 False (Some '','')
     = str_split [] (Some '','') \<and>
   get_line example_linecache ''example_data.pid'' 3 False None = Inr []"
proof -
  have h: "no_such_line example_linecache ''example_data.pid'' 3"
    by code_simp
  from get_line_out_of_range [OF h, of False "Some '',''"] h show ?thesis
    by blast
qed




text \<open>
  C10. The claim: \<open>get_line\<close> never raises, whatever the path, the line index and the
  delimiter. It raises for the empty delimiter: \<open>str.split\<close> refuses an empty separator
  with \<open>ValueError\<close>, for every line and also for the empty string of a missing line.
\<close>

theorem get_line_empty_delimiter_raises:
  "get_line example_linecache ''example_data.pid'' 0 True (Some []) = Inl ValueError \<and>
   get_line example_linecache ''missing.pid'' 0 True (Some []) = Inl ValueError"
  by code_simp

text \<open>
  C10, as the code has it. \<open>get_line\<close> catches nothing: an exception that \<open>linecache\<close> lets
  through (on CPython 3.11, the \<open>ValueError\<close> for a name with a NUL character) is raised by
  \<open>get_line\<close> as well. Whenever \<open>linecache\<close> returns, then for every line index and every
  delimiter other than the empty string \<open>get_line\<close> returns a list of strings, and for the
  empty delimiter it raises \<open>ValueError\<close>. When \<open>linecache\<close> finds no such line (no file
  under the name, neither directly nor through the module search path, or a line index
  outside the file it has found), \<open>get_line\<close> returns the empty list with the default
  whitespace delimiter, and the one-element list of the empty string with a delimiter
  that is not empty. (Only the return is stated for a line that is not ASCII, not its
  tokens: \<open>str.upper\<close> and \<open>str.split\<close> with a separator that is not empty never raise.)
\<close>

theorem get_line_returns_unless_empty_delimiter:
  "(getlines file_path = Inl e \<longrightarrow>
      get_line getlines file_path header_line uppercase delimiter = Inl e) \<and>
   (getlines file_path = Inr lines \<longrightarrow>
      (delimiter \<noteq> Some [] \<longrightarrow>
         (\<exists>tokens. get_line getlines file_path header_line uppercase delimiter = Inr tokens)) \<and>
      get_line getlines file_path header_line uppercase (Some []) = Inl ValueError \<and>
      (no_such_line getlines file_path header_line \<longrightarrow>
         get_line getlines file_path header_line uppercase None = Inr [] \<and>
         (d \<noteq> [] \<longrightarrow>
            get_line getlines file_path header_line uppercase (Some d) = Inr [[]])))"
proof (intro conjI impI)
  assume "getlines file_path = Inl e"
  then show "get_line getlines file_path header_line uppercase delimiter = Inl e"
    by (rule get_line_raises)
next
  assume "getlines file_path = Inr lines"
  then obtain line where
    line: "linecache_getline getlines file_path (header_line + 1) = Inr line"
    using linecache_getline_returns by blast
  note unfold = get_line_unfold [OF line]
  show "get_line getlines file_path header_line uppercase (Some []) = Inl ValueError"
    by (simp add: unfold str_split_empty)
  {
    assume "delimiter \<noteq> Some []"
    then show "\<exists>tokens. get_line getlines file_path header_line uppercase delimiter = Inr tokens"
      unfolding unfold by (rule str_split_returns)
  }
  assume "no_such_line getlines file_path header_line"
  then have e: "linecache_getline getlines file_path (header_line + 1) = Inr []"
    by (rule linecache_getline_missing)
  show "get_line getlines file_path header_line uppercase None = Inr []"
    by (simp add: get_line_unfold [OF e] str_split_empty)
  assume "d \<noteq> []"
  then show "get_line getlines file_path header_line uppercase (Some d) = Inr [[]]"
    by (simp add: get_line_unfold [OF e] str_split_empty)
qed

theorem get_line_returns_unless_empty_delimiter_witness:
  "example_linecache nul_path = Inl ValueError \<and>
   get_line example_linecache nul_path 0 True None = Inl ValueError \<and>
   example_linecache ''missing.pid'' = Inr [] \<and>
   Some '','' \<noteq> Some [] \<and>
   (\<exists>tokens. get_line example_linecache ''missing.pid'' 0 True (Some '','') = Inr tokens) \<and>
   get_line example_linecache ''missing.pid'' 0 True (Some []) = Inl ValueError \<and>
   no_such_line example_linecache ''missing.pid'' 0 \<and>
   get_line example_linecache ''missing.pid'' 0 True None = Inr [] \<and>
   '';'' \<noteq> [] \<and>
   get_line example_linecache ''missing.pid'' 0 True (Some '';'') = Inr [[]]"
proof -
  have r: "example_linecache nul_path = Inl ValueError"
    by code_simp
  have m: "example_linecache ''missing.pid'' = Inr []"
    by code_simp
  have a: "Some '','' \<noteq> Some []" and b: "'';'' \<noteq> []"
    by simp_all
  have c: "no_such_line example_linecache ''missing.pid'' 0"
    by code_simp
  from get_line_returns_unless_empty_delimiter
         [of example_linecache nul_path ValueError 0 True None] r
  have "get_line example_linecache nul_path 0 True None = Inl ValueError"
    by blast
  moreover
  from get_line_returns_unless_empty_delimiter
         [of example_linecache "''missing.pid''" _ 0 True "Some '',''" "[]" "'';''"] m a b c
  have "(\<exists>tokens. get_line example_linecache ''missing.pid'' 0 True (Some '','') = Inr tokens) \<and>
        get_line example_linecache ''missing.pid'' 0 True (Some []) = Inl ValueError \<and>
        get_line example_linecache ''missing.pid'' 0 True None = Inr [] \<and>
        get_line example_linecache ''missing.pid'' 0 True (Some '';'') = Inr [[]]"
    by blast
  ultimately show ?thesis
    using r m a b c by blast
qed

section \<open>Multi-series plotter: colours, fits and the figure (plot\_one\_x\_many\_y/main.py)\<close>

subsection \<open>The figure and the libraries\<close>

text \<open>
  Indexing a sequence, \<open>xs[i]\<close>: a negative index counts from the end, and an index outside
  the sequence raises \<open>IndexError\<close>.
\<close>

definition py_index :: "'a list \<Rightarrow> int \<Rightarrow> py_error + 'a" where
  "py_index xs i =
     (if 0 \<le> i \<and> i < int (length xs) then Inr (xs ! nat i)
      else if i < 0 \<and> - int (length xs) \<le> i then Inr (xs ! nat (int (length xs) + i))
      else Inl IndexError)"

text \<open>
  A colour is an RGBA tuple, and a colormap maps a fraction to a colour. The argument of
  \<open>plt.get_cmap\<close> is a colormap, the name of a registered one, or \<open>None\<close>.
\<close>

type_synonym color = "real \<times> real \<times> real \<times> real"

type_synonym colormap = "real \<Rightarrow> color"

datatype cmap_arg = CmapNone | CmapName string | CmapObject colormap

text \<open>
  Keyword dictionaries (\<open>**kwargs\<close>) that are handed to the libraries unchanged are maps
  from the keyword to its value.
\<close>

datatype pyval = PyInt int | PyFloat real | PyStr string

type_synonym kwargs = "string \<rightharpoonup> pyval"

text \<open>
  What the figure holds. \<open>ax.scatter\<close> adds a collection of points with one face colour,
  \<open>ax.plot\<close> adds a line, which has a label only when one is given. The axes carry their
  colour cycle and the position in it, the collections and lines in the order in which
  they were added, the properties set by \<open>ax.set\<close>, and the entries of the legend once
  \<open>ax.legend\<close> has been called.
\<close>

record path_collection =
  offsets :: "(real \<times> real) list"
  facecolors :: "color list"

record line2d =
  xdata :: "real list"
  ydata :: "real list"
  line_color :: color
  line_label :: "string option"

record axes =
  prop_cycle :: "color list"
  cycle_index :: nat
  collections :: "path_collection list"
  ax_lines :: "line2d list"
  ax_properties :: kwargs
  ax_legend :: "(string \<times> color) list option"

text \<open>
  The state of matplotlib that the code reads: the registered colormaps, the default
  colormap \<open>rcParams["image.cmap"]\<close> and the default colour cycle of new axes.
\<close>

record pyplot =
  colormaps :: "string \<rightharpoonup> colormap"
  image_cmap :: string
  axes_prop_cycle :: "color list"

text \<open>
  \<open>scipy.interpolate.splrep\<close> and \<open>splev\<close> are library functions and not code of the
  repository: they are parameters of the model. \<open>splrep\<close> gets the data and its keyword
  arguments and returns a spline representation or raises; \<open>splev\<close> evaluates a
  representation on a grid. Whatever is proved holds for every such pair.
\<close>

record 'tck interpolate =
  splrep :: "real list \<Rightarrow> real list \<Rightarrow> kwargs \<Rightarrow> py_error + 'tck"
  splev :: "real list \<Rightarrow> 'tck \<Rightarrow> real list"

text \<open>
  \<open>plt.get_cmap(name)\<close>: a colormap is returned as it is, a name is looked up among the
  registered colormaps (\<open>ValueError\<close> when it is not one), \<open>None\<close> stands for the default.
\<close>

definition get_cmap :: "pyplot \<Rightarrow> cmap_arg \<Rightarrow> py_error + colormap" where
  "get_cmap plt name =
     (case name of
        CmapObject cm \<Rightarrow> Inr cm
      | CmapName n \<Rightarrow> (case colormaps plt n of None \<Rightarrow> Inl ValueError | Some cm \<Rightarrow> Inr cm)
      | CmapNone \<Rightarrow>
          (case colormaps plt (image_cmap plt) of None \<Rightarrow> Inl ValueError | Some cm \<Rightarrow> Inr cm))"

text \<open>
  \<open>ax.set_prop_cycle(color=colors)\<close> replaces the colour cycle and starts it anew.
\<close>

definition set_prop_cycle :: "axes \<Rightarrow> color list \<Rightarrow> axes" where
  "set_prop_cycle ax colors = ax\<lparr>prop_cycle := colors, cycle_index := 0\<rparr>"

text \<open>
  \<^verbatim>\<open>def set_color_cycle(ax, colormap, num_colors):\<close>
  \<^verbatim>\<open>    cm = plt.get_cmap(colormap)\<close>
  \<^verbatim>\<open>    ax.set_prop_cycle(color=[cm(1. * i / num_colors) for i in range(num_colors)])\<close>
  \<open>range(num_colors)\<close> is empty for \<open>num_colors \<le> 0\<close>, so nothing is divided by zero.
\<close>

definition set_color_cycle :: "pyplot \<Rightarrow> axes \<Rightarrow> cmap_arg \<Rightarrow> int \<Rightarrow> py_error + axes" where
  "set_color_cycle plt ax colormap num_colors =
     and_then (get_cmap plt colormap)
       (\<lambda>cm. Inr (set_prop_cycle ax
          (map (\<lambda>i. cm (1 * real i / real_of_int num_colors)) [0..<nat num_colors])))"

text \<open>
  \<open>plt.subplots(1, 1, **fig_kwargs)\<close>: new, empty axes.
\<close>

definition subplots :: "pyplot \<Rightarrow> kwargs \<Rightarrow> axes" where
  "subplots plt fig_kw =
     \<lparr>prop_cycle = axes_prop_cycle plt, cycle_index = 0, collections = [], ax_lines = [],
      ax_properties = Map.empty, ax_legend = None\<rparr>"

text \<open>
  \<open>ax.scatter(x, y)\<close> with no colour given: \<open>ValueError\<close> when \<open>x\<close> and \<open>y\<close> differ in size;
  the face colour is the next colour of the cycle, which then advances. Taking a colour
  from an empty cycle fails in the library (\<open>IndexError\<close> here).
\<close>

definition scatter :: "axes \<Rightarrow> real list \<Rightarrow> real list \<Rightarrow> py_error + axes" where
  "scatter ax x y =
     (if length x \<noteq> length y then Inl ValueError
      else if prop_cycle ax = [] then Inl IndexError
      else Inr (ax\<lparr>collections := collections ax @
                     [\<lparr>offsets = zip x y,
                       facecolors = [prop_cycle ax ! (cycle_index ax mod length (prop_cycle ax))]\<rparr>],
                   cycle_index := cycle_index ax + 1\<rparr>))"

text \<open>
  \<open>plt.gca().collections[-1].get_facecolors()[0]\<close>, where the current axes are the axes
  drawn on: \<open>IndexError\<close> when nothing has been scattered yet.
\<close>

definition last_facecolor :: "axes \<Rightarrow> py_error + color" where
  "last_facecolor ax =
     and_then (py_index (collections ax) (- 1)) (\<lambda>c. py_index (facecolors c) 0)"

text \<open>
  \<open>ax.plot(x, y, color=c)\<close> and \<open>ax.plot(x, y, '-o', label=l, color=c)\<close>: one more line. With
  the colour given, the colour cycle does not advance.
\<close>

definition plot :: "axes \<Rightarrow> real list \<Rightarrow> real list \<Rightarrow> color \<Rightarrow> string option \<Rightarrow> py_error + axes" where
  "plot ax x y c label =
     (if length x \<noteq> length y then Inl ValueError
      else Inr (ax\<lparr>ax_lines := ax_lines ax @
                     [\<lparr>xdata = x, ydata = y, line_color = c, line_label = label\<rparr>]\<rparr>))"

text \<open>
  \<open>ax.legend(**legend_kwargs)\<close>: one entry for every line that carries a label, in the order
  of the lines, with the label and the colour of the line. (matplotlib leaves out a label
  that is empty or starts with an underscore; the model keeps every label, so it is the
  legend of a figure whose labels are all shown.)
\<close>

definition legend :: "axes \<Rightarrow> axes" where
  "legend ax =
     ax\<lparr>ax_legend := Some (List.map_filter
        (\<lambda>l. map_option (\<lambda>s. (s, line_color l)) (line_label l)) (ax_lines ax))\<rparr>"

text \<open>
  \<open>np.linspace(start, stop)\<close>: 50 evenly spaced samples from \<open>start\<close> to \<open>stop\<close>, both
  included.
\<close>

definition linspace :: "real \<Rightarrow> real \<Rightarrow> real list" where
  "linspace start stop = map (\<lambda>i. start + real i * ((stop - start) / 49)) [0..<50]"

text \<open>
  The keyword arguments that \<open>plot_fit\<close> reads from its \<open>**kwargs\<close>; \<open>None\<close> is a key that
  is absent.
\<close>

record plot_fit_kwargs =
  splrep_kwargs :: "kwargs option"
  linspace_kwargs :: "(real \<times> real) option"
  color :: "color option"

text \<open>
  \<^verbatim>\<open>if linear_condition:\<close>
  \<^verbatim>\<open>    if linear_condition(x, y):\<close>
  \<^verbatim>\<open>        kwargs["splrep_kwargs"] = dict(kwargs.get("splrep_kwargs", {}), k=1)\<close>
\<close>

definition linear_kwargs ::
  "(real list \<Rightarrow> real list \<Rightarrow> bool) option \<Rightarrow> real list \<Rightarrow> real list \<Rightarrow> plot_fit_kwargs \<Rightarrow> plot_fit_kwargs" where
  "linear_kwargs linear_condition x y kwargs =
     (case linear_condition of
        None \<Rightarrow> kwargs
      | Some cond \<Rightarrow>
          if cond x y
          then kwargs\<lparr>splrep_kwargs :=
                 Some ((case splrep_kwargs kwargs of None \<Rightarrow> Map.empty | Some d \<Rightarrow> d)
                         (''k'' \<mapsto> PyInt 1))\<rparr>
          else kwargs)"

text \<open>
  \<open>kwargs.get("splrep_kwargs", {})\<close> after that update: the keyword arguments of the call of
  \<open>splrep\<close>.
\<close>

definition plot_fit_splrep_kwargs ::
  "(real list \<Rightarrow> real list \<Rightarrow> bool) option \<Rightarrow> real list \<Rightarrow> real list \<Rightarrow> plot_fit_kwargs \<Rightarrow> kwargs" where
  "plot_fit_splrep_kwargs linear_condition x y kwargs =
     (case splrep_kwargs (linear_kwargs linear_condition x y kwargs) of
        None \<Rightarrow> Map.empty | Some d \<Rightarrow> d)"

text \<open>
  The degree of the spline that \<open>splrep\<close> is asked for: its keyword \<open>k\<close>, which the
  signature of the library defaults to 3 (cubic).
\<close>

definition splrep_degree :: "kwargs \<Rightarrow> pyval" where
  "splrep_degree kw = (case kw ''k'' of None \<Rightarrow> PyInt 3 | Some k \<Rightarrow> k)"

text \<open>
  \<^verbatim>\<open>spl = splrep(x, y, **kwargs.get("splrep_kwargs", {}))\<close>
  \<^verbatim>\<open>x_interpolation = np.linspace(**kwargs.get("linspace_kwargs"))\<close>
  \<^verbatim>\<open>ax.plot(x_interpolation, splev(x_interpolation, spl),\<close>
  \<^verbatim>\<open>        color=kwargs.get("color", plt.gca().collections[-1].get_facecolors()[0]))\<close>
  Unpacking a missing \<open>linspace_kwargs\<close> is a \<open>TypeError\<close>, and the default of the colour
  is evaluated whether a colour is given or not.
\<close>

definition plot_fit ::
  "'tck interpolate \<Rightarrow> axes \<Rightarrow> real list \<Rightarrow> real list \<Rightarrow>
   (real list \<Rightarrow> real list \<Rightarrow> bool) option \<Rightarrow> plot_fit_kwargs \<Rightarrow> py_error + axes" where
  "plot_fit lib ax x y linear_condition kwargs =
     and_then (splrep lib x y (plot_fit_splrep_kwargs linear_condition x y kwargs)) (\<lambda>spl.
     and_then (case linspace_kwargs kwargs of
                 None \<Rightarrow> Inl TypeError
               | Some (start, stop) \<Rightarrow> Inr (linspace start stop)) (\<lambda>x_interpolation.
     and_then (last_facecolor ax) (\<lambda>last_color.
       plot ax x_interpolation (splev lib x_interpolation spl)
         (case color kwargs of None \<Rightarrow> last_color | Some c \<Rightarrow> c) None)))"

text \<open>
  The keyword arguments of \<open>plot_data\<close>. The column \<open>y_data[:, i]\<close> of the data matrix is the
  \<open>i\<close>-th element of the list \<open>y_data\<close> of columns, and \<open>y_data.shape[1]\<close> its length.
\<close>

record plot_data_kwargs =
  fig_kwargs :: "kwargs option"
  color_cycle :: "cmap_arg option"
  linear_condition :: "(real list \<Rightarrow> real list \<Rightarrow> bool) option"
  ax_kwargs :: "kwargs option"
  legend_kwargs :: "kwargs option"

text \<open>
  The body of the loop of \<open>plot_data\<close>, for the series \<open>i\<close> with the column \<open>y\<close>:
  \<^verbatim>\<open>ax.scatter(x_data, y)\<close>
  \<^verbatim>\<open>scatter_color = plt.gca().collections[-1].get_facecolors()[0]\<close>
  \<^verbatim>\<open>plot_fit(ax, x_data, y, linear_condition=kwargs.get('linear_condition'),\<close>
  \<^verbatim>\<open>         linspace_kwargs={'start': x_data[0], 'stop': x_data[-1]})\<close>
  \<^verbatim>\<open>ax.plot([], [], '-o', label=labels[i - 1], color=scatter_color)\<close>
\<close>

text \<open>
  A \<open>for\<close> loop over a list that threads the state through its body and stops at the
  first exception.
\<close>

fun for_loop :: "('s \<Rightarrow> 'a \<Rightarrow> py_error + 's) \<Rightarrow> 'a list \<Rightarrow> 's \<Rightarrow> py_error + 's" where
  "for_loop body [] s = Inr s"
| "for_loop body (a # as) s = and_then (body s a) (for_loop body as)"

definition plot_series ::
  "'tck interpolate \<Rightarrow> real list \<Rightarrow> string list \<Rightarrow>
   (real list \<Rightarrow> real list \<Rightarrow> bool) option \<Rightarrow> axes \<Rightarrow> nat \<times> real list \<Rightarrow> py_error + axes" where
  "plot_series lib x_data labels cond ax iy =
     (case iy of (i, y) \<Rightarrow>
        and_then (scatter ax x_data y) (\<lambda>ax.
        and_then (last_facecolor ax) (\<lambda>scatter_color.
        and_then (py_index x_data 0) (\<lambda>x_first.
        and_then (py_index x_data (- 1)) (\<lambda>x_last.
        and_then (plot_fit lib ax x_data y cond
                    \<lparr>splrep_kwargs = None, linspace_kwargs = Some (x_first, x_last),
                     color = None\<rparr>) (\<lambda>ax.
        and_then (py_index labels (int i - 1)) (\<lambda>label.
          plot ax [] [] scatter_color (Some label))))))))"

text \<open>
  \<^verbatim>\<open>fig, ax = plt.subplots(1, 1, **kwargs.get('fig_kwargs'))\<close>
  \<^verbatim>\<open>set_color_cycle(ax, kwargs.get('color_cycle', 'viridis'), len(labels))\<close>
  \<^verbatim>\<open>for i in range(y_data.shape[1]): ...\<close>
  \<^verbatim>\<open>ax.set(**kwargs.get('ax_kwargs'))\<close>
  \<^verbatim>\<open>ax.legend(**kwargs.get('legend_kwargs'))\<close>
  The function returns nothing; the model returns the axes it has drawn on.
\<close>

definition plot_data ::
  "'tck interpolate \<Rightarrow> pyplot \<Rightarrow> real list \<Rightarrow> real list list \<Rightarrow> string list \<Rightarrow>
   plot_data_kwargs \<Rightarrow> py_error + axes" where
  "plot_data lib plt x_data y_data labels kwargs =
     and_then (case fig_kwargs kwargs of None \<Rightarrow> Inl TypeError
               | Some kw \<Rightarrow> Inr (subplots plt kw)) (\<lambda>ax.
     and_then (set_color_cycle plt ax
                 (case color_cycle kwargs of None \<Rightarrow> CmapName ''viridis'' | Some c \<Rightarrow> c)
                 (int (length labels))) (\<lambda>ax.
     and_then (for_loop (plot_series lib x_data labels (linear_condition kwargs))
                 (enumerate 0 y_data) ax) (\<lambda>ax.
     and_then (case ax_kwargs kwargs of None \<Rightarrow> Inl TypeError
               | Some kw \<Rightarrow> Inr (ax\<lparr>ax_properties := kw\<rparr>)) (\<lambda>ax.
       (case legend_kwargs kwargs of None \<Rightarrow> Inl TypeError
        | Some kw \<Rightarrow> Inr (legend ax))))))"

text \<open>
  Two readings of the lines of a figure: the entries a legend has for them (the lines with
  a label), and the lines without a label, which are the fitted curves.
\<close>

definition legend_entries :: "axes \<Rightarrow> (string \<times> color) list" where
  "legend_entries ax =
     List.map_filter (\<lambda>l. map_option (\<lambda>s. (s, line_color l)) (line_label l)) (ax_lines ax)"

definition fit_lines :: "axes \<Rightarrow> line2d list" where
  "fit_lines ax = filter (\<lambda>l. line_label l = None) (ax_lines ax)"

text \<open>
  Data to run the model on: a grey ramp registered under the name \<open>viridis\<close>, a stand-in
  for the spline library whose representation of a fit is the data and the degree asked
  for and whose evaluation is zero everywhere, and keyword arguments that give every
  dictionary \<open>plot_data\<close> unpacks.
\<close>

definition gray :: colormap where
  "gray t = (t, t, t, 1)"

definition example_pyplot :: pyplot where
  "example_pyplot = \<lparr>colormaps = [''viridis'' \<mapsto> gray], image_cmap = ''viridis'',
     axes_prop_cycle = []\<rparr>"

definition example_interpolate :: "(real list \<times> real list \<times> pyval) interpolate" where
  "example_interpolate =
     \<lparr>splrep = (\<lambda>x y kw. Inr (x, y, splrep_degree kw)),
      splev = (\<lambda>g spl. map (\<lambda>t. 0) g)\<rparr>"

definition example_kwargs :: plot_data_kwargs where
  "example_kwargs = \<lparr>fig_kwargs = Some Map.empty, color_cycle = None,
     linear_condition = None, ax_kwargs = Some Map.empty, legend_kwargs = Some Map.empty\<rparr>"

text \<open>
  Two series over four points, the predicate of the script (\<open>lambda x, y: y[-1] < 10\<close>),
  axes on which one series has been scattered, and keyword arguments for \<open>plot_fit\<close>
  without and with a degree for \<open>splrep\<close>.
\<close>

definition example_x :: "real list" where
  "example_x = [0, 1, 2, 3]"

definition example_y :: "real list list" where
  "example_y = [[1, 2, 3, 4], [40, 30, 20, 10]]"


definition example_axes :: axes where
  "example_axes =
     \<lparr>prop_cycle = [gray 0, gray (1 / 2)], cycle_index = 1,
      collections = [\<lparr>offsets = zip example_x [9, 7, 6, 5], facecolors = [gray 0]\<rparr>],
      ax_lines = [], ax_properties = Map.empty, ax_legend = None\<rparr>"



subsection \<open>What a call adds to the figure\<close>

lemma and_then_Inr_iff:
  "and_then r f = Inr v \<longleftrightarrow> (\<exists>u. r = Inr u \<and> f u = Inr v)"
  by (cases r) (simp_all add: and_then_def)

lemma and_then_simps [simp]:
  "and_then (Inl e) f = Inl e"
  "and_then (Inr u) f = f u"
  by (simp_all add: and_then_def)

lemma Inr_projr: "\<not> isl r \<Longrightarrow> r = Inr (projr r)"
  by (cases r) simp_all

lemma scatter_Inr:
  assumes "scatter ax x y = Inr ax'"
  shows "collections ax' = collections ax @
           [\<lparr>offsets = zip x y,
             facecolors = [prop_cycle ax ! (cycle_index ax mod length (prop_cycle ax))]\<rparr>]"
    and "ax_lines ax' = ax_lines ax"
    and "prop_cycle ax' = prop_cycle ax"
    and "cycle_index ax' = Suc (cycle_index ax)"
    and "prop_cycle ax \<noteq> []"
  using assms by (auto simp: scatter_def split: if_splits)

lemma plot_Inr:
  assumes "plot ax x y c label = Inr ax'"
  shows "ax_lines ax' = ax_lines ax @ [\<lparr>xdata = x, ydata = y, line_color = c, line_label = label\<rparr>]"
    and "collections ax' = collections ax"
    and "prop_cycle ax' = prop_cycle ax"
    and "cycle_index ax' = cycle_index ax"
  using assms by (auto simp: plot_def split: if_splits)

lemma plot_fit_Inr:
  assumes "plot_fit lib ax x y cond kwargs = Inr ax'"
  shows "\<exists>spl grid c.
           splrep lib x y (plot_fit_splrep_kwargs cond x y kwargs) = Inr spl \<and>
           ax_lines ax' = ax_lines ax @
             [\<lparr>xdata = grid, ydata = splev lib grid spl, line_color = c, line_label = None\<rparr>]"
    and "collections ax' = collections ax"
    and "prop_cycle ax' = prop_cycle ax"
    and "cycle_index ax' = cycle_index ax"
proof -
  from assms obtain spl grid c where
    spl: "splrep lib x y (plot_fit_splrep_kwargs cond x y kwargs) = Inr spl"
    and p: "plot ax grid (splev lib grid spl) c None = Inr ax'"
    unfolding plot_fit_def and_then_Inr_iff by blast
  from spl plot_Inr(1) [OF p]
  show "\<exists>spl grid c.
           splrep lib x y (plot_fit_splrep_kwargs cond x y kwargs) = Inr spl \<and>
           ax_lines ax' = ax_lines ax @
             [\<lparr>xdata = grid, ydata = splev lib grid spl, line_color = c, line_label = None\<rparr>]"
    by blast
  from plot_Inr(2-4) [OF p]
  show "collections ax' = collections ax" and "prop_cycle ax' = prop_cycle ax"
    and "cycle_index ax' = cycle_index ax"
    by simp_all
qed

lemma last_facecolor_snoc:
  "collections ax = cs @ [c] \<Longrightarrow> facecolors c = [col] \<Longrightarrow> last_facecolor ax = Inr col"
  by (simp add: last_facecolor_def py_index_def)

lemma plot_series_Inr:
  assumes "plot_series lib x_data labels cond ax (i, y) = Inr ax'"
  shows "\<exists>fit lab col.
           py_index labels (int i - 1) = Inr lab \<and>
           col = prop_cycle ax ! (cycle_index ax mod length (prop_cycle ax)) \<and>
           collections ax' = collections ax @ [\<lparr>offsets = zip x_data y, facecolors = [col]\<rparr>] \<and>
           line_label fit = None \<and>
           ax_lines ax' = ax_lines ax @
             [fit, \<lparr>xdata = [], ydata = [], line_color = col, line_label = Some lab\<rparr>] \<and>
           prop_cycle ax' = prop_cycle ax \<and>
           cycle_index ax' = Suc (cycle_index ax)"
proof -
  from assms obtain ax1 scatter_color x_first x_last ax2 lab where
    s: "scatter ax x_data y = Inr ax1"
    and c: "last_facecolor ax1 = Inr scatter_color"
    and f: "plot_fit lib ax1 x_data y cond
              \<lparr>splrep_kwargs = None, linspace_kwargs = Some (x_first, x_last), color = None\<rparr> = Inr ax2"
    and l: "py_index labels (int i - 1) = Inr lab"
    and p: "plot ax2 [] [] scatter_color (Some lab) = Inr ax'"
    by (auto simp: plot_series_def and_then_Inr_iff)
  let ?col = "prop_cycle ax ! (cycle_index ax mod length (prop_cycle ax))"
  have "last_facecolor ax1 = Inr ?col"
    using scatter_Inr(1) [OF s] by (rule last_facecolor_snoc) simp
  with c have col: "scatter_color = ?col"
    by simp
  from plot_fit_Inr(1) [OF f] obtain fit where
    fit: "ax_lines ax2 = ax_lines ax1 @ [fit]" "line_label fit = None"
    by auto
  show ?thesis
    using l col fit scatter_Inr [OF s] plot_fit_Inr(2-4) [OF f] plot_Inr [OF p]
    by auto
qed

lemma plot_series_counts:
  assumes "plot_series lib x_data labels cond ax (i, y) = Inr ax'"
  shows "length (collections ax') = Suc (length (collections ax))"
    and "length (fit_lines ax') = Suc (length (fit_lines ax))"
    and "\<exists>lab. py_index labels (int i - 1) = Inr lab \<and>
           map fst (legend_entries ax') = map fst (legend_entries ax) @ [lab]"
  using plot_series_Inr [OF assms]
  by (auto simp: fit_lines_def legend_entries_def map_filter_def)

lemma for_loop_plot_series:
  assumes "for_loop (plot_series lib x_data labels cond) (enumerate k ys) ax = Inr ax'"
  shows "length (collections ax') = length (collections ax) + length ys \<and>
         length (fit_lines ax') = length (fit_lines ax) + length ys \<and>
         map Inr (map fst (legend_entries ax')) =
           map Inr (map fst (legend_entries ax)) @
           map (\<lambda>i. py_index labels (int i - 1)) [k..<k + length ys]"
  using assms
proof (induction ys arbitrary: k ax)
  case Nil
  then show ?case by simp
next
  case (Cons y ys)
  from Cons.prems obtain ax1 where
    step: "plot_series lib x_data labels cond ax (k, y) = Inr ax1"
    and rest: "for_loop (plot_series lib x_data labels cond) (enumerate (Suc k) ys) ax1 = Inr ax'"
    by (auto simp: and_then_Inr_iff)
  from plot_series_counts(3) [OF step] obtain lab where
    lab: "py_index labels (int k - 1) = Inr lab"
    "map fst (legend_entries ax1) = map fst (legend_entries ax) @ [lab]"
    by blast
  have e: "k + length (y # ys) = Suc k + length ys"
    by simp
  have u: "[k..<Suc k + length ys] = k # [Suc k..<Suc k + length ys]"
    by (rule upt_conv_Cons) simp
  have m: "map (\<lambda>i. py_index labels (int i - 1)) [k..<k + length (y # ys)]
      = Inr lab # map (\<lambda>i. py_index labels (int i - 1)) [Suc k..<Suc k + length ys]"
    by (simp only: e u list.map lab(1))
  note IH = Cons.IH [OF rest]
  show ?case
  proof (intro conjI)
    show "length (collections ax') = length (collections ax) + length (y # ys)"
      using IH plot_series_counts(1) [OF step] by simp
    show "length (fit_lines ax') = length (fit_lines ax) + length (y # ys)"
      using IH plot_series_counts(2) [OF step] by simp
    show "map Inr (map fst (legend_entries ax')) =
        map Inr (map fst (legend_entries ax)) @
        map (\<lambda>i. py_index labels (int i - 1)) [k..<k + length (y # ys)]"
      unfolding m using IH lab(2) by (simp del: upt_Suc)
  qed
qed

lemma rotated_labels:
  assumes "labels \<noteq> []"
  shows "map (\<lambda>i. py_index labels (int i - 1)) [0..<length labels]
         = map Inr (last labels # butlast labels)"
proof (rule nth_equalityI)
  show "length (map (\<lambda>i. py_index labels (int i - 1)) [0..<length labels])
        = length (map Inr (last labels # butlast labels))"
    using assms by simp
next
  fix i
  assume "i < length (map (\<lambda>i. py_index labels (int i - 1)) [0..<length labels])"
  then have i: "i < length labels"
    by simp
  show "map (\<lambda>i. py_index labels (int i - 1)) [0..<length labels] ! i
        = map Inr (last labels # butlast labels) ! i"
  proof (cases i)
    case 0
    have "0 < length labels"
      using assms by simp
    then have "nat (int (length labels) - 1) = length labels - 1"
      and "Suc 0 \<le> length labels"
      by linarith+
    then show ?thesis
      using 0 assms by (simp add: py_index_def last_conv_nth)
  next
    case (Suc j)
    then have "nat (int i - 1) = j"
      by simp
    then show ?thesis
      using Suc i assms by (simp add: py_index_def nth_butlast)
  qed
qed

lemma plot_data_Inr:
  assumes "plot_data lib plt x_data y_data labels kwargs = Inr ax"
  shows "length (collections ax) = length y_data \<and>
         length (fit_lines ax) = length y_data \<and>
         ax_legend ax = Some (legend_entries ax) \<and>
         map Inr (map fst (legend_entries ax)) =
           map (\<lambda>i. py_index labels (int i - 1)) [0..<length y_data]"
proof -
  from assms obtain kw ax1 ax2 akw lkw where
    c: "set_color_cycle plt (subplots plt kw)
          (case color_cycle kwargs of None \<Rightarrow> CmapName ''viridis'' | Some c \<Rightarrow> c)
          (int (length labels)) = Inr ax1"
    and l: "for_loop (plot_series lib x_data labels (linear_condition kwargs))
              (enumerate 0 y_data) ax1 = Inr ax2"
    and a: "ax = legend (ax2\<lparr>ax_properties := akw\<rparr>)"
    by (auto simp: plot_data_def and_then_Inr_iff split: option.splits)
  from c have e: "collections ax1 = []" "ax_lines ax1 = []"
    by (auto simp: set_color_cycle_def set_prop_cycle_def subplots_def and_then_Inr_iff)
  have same: "collections ax = collections ax2" "ax_lines ax = ax_lines ax2"
    "ax_legend ax = Some (legend_entries ax)"
    by (simp_all add: a legend_def legend_entries_def)
  from same(2) have "fit_lines ax = fit_lines ax2" "legend_entries ax = legend_entries ax2"
    by (simp_all add: fit_lines_def legend_entries_def)
  with for_loop_plot_series [OF l] e same show ?thesis
    by (simp add: fit_lines_def legend_entries_def)
qed

subsection \<open>Claims on the plotter\<close>

lemma set_color_cycle_Inr:
  assumes "get_cmap plt colormap = Inr cm"
  shows "set_color_cycle plt ax colormap (int m) =
           Inr (set_prop_cycle ax (map (\<lambda>i. cm (real i / real m)) [0..<m]))"
  using assms by (simp add: set_color_cycle_def)

lemma evenly_spaced_inj:
  "inj_on (\<lambda>i. real i / real m) {0..<m}"
  by (auto simp: inj_on_def)

lemma evenly_spaced_range:
  "i < m \<Longrightarrow> real i / real m \<in> {0..<1}"
  by simp

lemma evenly_spaced_distinct:
  assumes "inj_on cm {0..<1::real}"
  shows "distinct (map (\<lambda>i. cm (real i / real m)) [0..<m])"
proof -
  have "inj_on (cm \<circ> (\<lambda>i. real i / real m)) {0..<m}"
  proof (rule comp_inj_on [OF evenly_spaced_inj])
    have "(\<lambda>i. real i / real m) ` {0..<m} \<subseteq> {0..<1}"
      using evenly_spaced_range by auto
    with assms show "inj_on cm ((\<lambda>i. real i / real m) ` {0..<m})"
      by (rule inj_on_subset)
  qed
  then show ?thesis
    by (simp add: distinct_map comp_def)
qed

text \<open>
  The colours of a figure drawn by \<open>plot_data\<close>: the \<open>i\<close>-th scatter group takes the \<open>i\<close>-th
  colour of the cycle that \<open>set_color_cycle\<close> has set, and the legend entry added for the
  series has the same colour.
\<close>

lemma plot_series_colors:
  assumes "plot_series lib x_data labels cond ax (i, y) = Inr ax'"
  shows "prop_cycle ax' = prop_cycle ax" and "cycle_index ax' = Suc (cycle_index ax)"
    and "map facecolors (collections ax') = map facecolors (collections ax) @
           [[prop_cycle ax ! (cycle_index ax mod length (prop_cycle ax))]]"
    and "map snd (legend_entries ax') = map snd (legend_entries ax) @
           [prop_cycle ax ! (cycle_index ax mod length (prop_cycle ax))]"
  using plot_series_Inr [OF assms]
  by (auto simp: legend_entries_def map_filter_def)

lemma for_loop_colors:
  assumes "for_loop (plot_series lib x_data labels cond) (enumerate k ys) ax = Inr ax'"
  shows "prop_cycle ax' = prop_cycle ax \<and>
         cycle_index ax' = cycle_index ax + length ys \<and>
         map facecolors (collections ax') = map facecolors (collections ax) @
           map (\<lambda>j. [prop_cycle ax ! (j mod length (prop_cycle ax))])
             [cycle_index ax..<cycle_index ax + length ys] \<and>
         map snd (legend_entries ax') = map snd (legend_entries ax) @
           map (\<lambda>j. prop_cycle ax ! (j mod length (prop_cycle ax)))
             [cycle_index ax..<cycle_index ax + length ys]"
  using assms
proof (induction ys arbitrary: k ax)
  case Nil
  then show ?case by simp
next
  case (Cons y ys)
  from Cons.prems obtain ax1 where
    step: "plot_series lib x_data labels cond ax (k, y) = Inr ax1"
    and rest: "for_loop (plot_series lib x_data labels cond) (enumerate (Suc k) ys) ax1 = Inr ax'"
    by (auto simp: and_then_Inr_iff)
  note s = plot_series_colors [OF step]
  note IH = Cons.IH [OF rest, unfolded s(1) s(2)]
  let ?c = "cycle_index ax"
  have e: "?c + length (y # ys) = Suc ?c + length ys"
    by simp
  have u: "[?c..<Suc ?c + length ys] = ?c # [Suc ?c..<Suc ?c + length ys]"
    by (rule upt_conv_Cons) simp
  show ?case
  proof (intro conjI)
    show "prop_cycle ax' = prop_cycle ax"
      using IH by simp
    show "cycle_index ax' = cycle_index ax + length (y # ys)"
      using IH by simp
    show "map facecolors (collections ax') = map facecolors (collections ax) @
        map (\<lambda>j. [prop_cycle ax ! (j mod length (prop_cycle ax))])
          [cycle_index ax..<cycle_index ax + length (y # ys)]"
      unfolding e u using IH s(3) by (simp del: upt_Suc)
    show "map snd (legend_entries ax') = map snd (legend_entries ax) @
        map (\<lambda>j. prop_cycle ax ! (j mod length (prop_cycle ax)))
          [cycle_index ax..<cycle_index ax + length (y # ys)]"
      unfolding e u using IH s(4) by (simp del: upt_Suc)
  qed
qed

lemma plot_data_colors:
  assumes "plot_data lib plt x_data y_data labels kwargs = Inr ax"
    and "get_cmap plt (case color_cycle kwargs of None \<Rightarrow> CmapName ''viridis'' | Some c \<Rightarrow> c)
           = Inr cm"
    and "length y_data \<le> length labels"
  shows "map facecolors (collections ax)
           = map (\<lambda>i. [cm (real i / real (length labels))]) [0..<length y_data]"
    and "map snd (legend_entries ax)
           = map (\<lambda>i. cm (real i / real (length labels))) [0..<length y_data]"
proof -
  let ?m = "length labels"
  let ?cycle = "map (\<lambda>i. cm (real i / real ?m)) [0..<?m]"
  from assms(1) obtain kw ax1 ax2 akw where
    c: "set_color_cycle plt (subplots plt kw)
          (case color_cycle kwargs of None \<Rightarrow> CmapName ''viridis'' | Some c \<Rightarrow> c)
          (int ?m) = Inr ax1"
    and l: "for_loop (plot_series lib x_data labels (linear_condition kwargs))
              (enumerate 0 y_data) ax1 = Inr ax2"
    and a: "ax = legend (ax2\<lparr>ax_properties := akw\<rparr>)"
    by (auto simp: plot_data_def and_then_Inr_iff split: option.splits)
  from c have ax1: "ax1 = set_prop_cycle (subplots plt kw) ?cycle"
    by (simp add: set_color_cycle_Inr [OF assms(2)])
  then have e: "collections ax1 = []" "legend_entries ax1 = []" "cycle_index ax1 = 0"
    "prop_cycle ax1 = ?cycle"
    by (simp_all add: set_prop_cycle_def subplots_def legend_entries_def map_filter_def)
  have same: "collections ax = collections ax2" "legend_entries ax = legend_entries ax2"
    by (simp_all add: a legend_def legend_entries_def)
  have nth: "?cycle ! (j mod ?m) = cm (real j / real ?m)" if "j < length y_data" for j
  proof -
    from that assms(3) have "j < ?m"
      by simp
    then show ?thesis
      by simp
  qed
  note loop = for_loop_colors [OF l, unfolded e, simplified]
  have "map facecolors (collections ax)
        = map (\<lambda>j. [?cycle ! (j mod length ?cycle)]) [0..<length y_data]"
    using loop by (simp add: same)
  also have "\<dots> = map (\<lambda>i. [cm (real i / real ?m)]) [0..<length y_data]"
    by (rule map_cong [OF refl]) (simp add: nth)
  finally show "map facecolors (collections ax)
           = map (\<lambda>i. [cm (real i / real (length labels))]) [0..<length y_data]" .
  have "map snd (legend_entries ax)
        = map (\<lambda>j. ?cycle ! (j mod length ?cycle)) [0..<length y_data]"
    using loop by (simp add: same)
  also have "\<dots> = map (\<lambda>i. cm (real i / real ?m)) [0..<length y_data]"
    by (rule map_cong [OF refl]) (simp add: nth)
  finally show "map snd (legend_entries ax)
           = map (\<lambda>i. cm (real i / real (length labels))) [0..<length y_data]" .
qed

text \<open>
  C7. Once \<open>plt.get_cmap\<close> has resolved the colormap to \<open>cm\<close>, \<open>set_color_cycle\<close> for \<open>m\<close>
  series returns, and the colour cycle it sets has exactly \<open>m\<close> colours, the \<open>i\<close>-th of them
  (in series index order, \<open>i = 0 .. m - 1\<close>) being \<open>cm (i / m)\<close>. If the colormap is injective
  on \<open>[0, 1)\<close>, the colours are pairwise distinct. The assignment depends on the colormap
  and on \<open>m\<close> only: starting from any other axes gives the same cycle.
\<close>

theorem set_color_cycle_evenly_spaced:
  assumes "get_cmap plt colormap = Inr cm"
  shows "\<exists>ax'. set_color_cycle plt ax colormap (int m) = Inr ax' \<and>
           length (prop_cycle ax') = m \<and>
           (\<forall>i<m. prop_cycle ax' ! i = cm (real i / real m)) \<and>
           (inj_on cm {0..<1} \<longrightarrow> distinct (prop_cycle ax')) \<and>
           (\<forall>ax2. \<exists>ax2'. set_color_cycle plt ax2 colormap (int m) = Inr ax2' \<and>
                     prop_cycle ax2' = prop_cycle ax')"
  using evenly_spaced_distinct [of cm m]
  by (simp add: set_color_cycle_Inr [OF assms] set_prop_cycle_def)

theorem set_color_cycle_evenly_spaced_witness:
  "get_cmap example_pyplot (CmapName ''viridis'') = Inr gray \<and>
   inj_on gray {0..<1} \<and>
   (\<exists>ax'. set_color_cycle example_pyplot example_axes (CmapName ''viridis'') (int 3) = Inr ax' \<and>
      prop_cycle ax' = [gray 0, gray (1 / 3), gray (2 / 3)] \<and>
      distinct (prop_cycle ax'))"
proof -
  have g: "get_cmap example_pyplot (CmapName ''viridis'') = Inr gray"
    by (simp add: get_cmap_def example_pyplot_def)
  have i: "inj_on gray {0..<1}"
    by (simp add: inj_on_def gray_def)
  have v: "set_color_cycle example_pyplot example_axes (CmapName ''viridis'') (int 3)
      = Inr (set_prop_cycle example_axes [gray 0, gray (1 / 3), gray (2 / 3)])"
    by (simp add: set_color_cycle_def g numeral_3_eq_3)
  from set_color_cycle_evenly_spaced [OF g, of example_axes 3] obtain ax' where
    ax': "set_color_cycle example_pyplot example_axes (CmapName ''viridis'') (int 3) = Inr ax'"
    "inj_on gray {0..<1} \<longrightarrow> distinct (prop_cycle ax')"
    by blast
  from ax'(1) v have "prop_cycle ax' = [gray 0, gray (1 / 3), gray (2 / 3)]"
    by (simp add: set_prop_cycle_def)
  with g i ax' show ?thesis
    by blast
qed





text \<open>
  C2. The claim: for \<open>m\<close> series with \<open>m\<close> labels, \<open>plot_data\<close> adds \<open>m\<close> scatter groups, \<open>m\<close>
  smoothed curves and a legend of \<open>m\<close> entries, the \<open>i\<close>-th entry carrying the \<open>i\<close>-th label.
  The counts hold whenever \<open>plot_data\<close> returns, but the legend is labelled with
  \<open>labels[i - 1]\<close>: its first entry carries the last label, and every further entry the label
  of the series before it. For the labels A, B the legend reads B, A.
\<close>

theorem plot_data_legend_order:
  assumes "plot_data lib plt x_data y_data labels kwargs = Inr ax"
    and "length labels = length y_data" and "y_data \<noteq> []"
  shows "length (collections ax) = length y_data \<and>
         length (fit_lines ax) = length y_data \<and>
         (\<exists>entries. ax_legend ax = Some entries \<and> length entries = length y_data \<and>
            map fst entries = last labels # butlast labels)"
proof -
  note r = plot_data_Inr [OF assms(1)]
  have ne: "labels \<noteq> []"
    using assms(2,3) by auto
  from r have "map Inr (map fst (legend_entries ax))
      = map (\<lambda>i. py_index labels (int i - 1)) [0..<length y_data]"
    by blast
  also have "\<dots> = map (\<lambda>i. py_index labels (int i - 1)) [0..<length labels]"
    by (simp only: assms(2))
  also have "\<dots> = map Inr (last labels # butlast labels)"
    using ne by (rule rotated_labels)
  finally have l: "map fst (legend_entries ax) = last labels # butlast labels"
    by (rule map_injective) simp
  have "0 < length y_data"
    using assms(3) by simp
  with l have "length (map fst (legend_entries ax)) = length y_data"
    using assms(2) by simp
  then have n: "length (legend_entries ax) = length y_data"
    by simp
  from r have "length (collections ax) = length y_data"
    and "length (fit_lines ax) = length y_data"
    and "ax_legend ax = Some (legend_entries ax)"
    by simp_all
  with l n show ?thesis
    by (intro conjI exI [of _ "legend_entries ax"])
qed

theorem plot_data_legend_order_witness:
  "plot_data example_interpolate example_pyplot example_x example_y [''A'', ''B''] example_kwargs
     = Inr (projr (plot_data example_interpolate example_pyplot example_x example_y
         [''A'', ''B''] example_kwargs)) \<and>
   length [''A'', ''B''] = length example_y \<and> example_y \<noteq> [] \<and>
   (\<exists>entries. ax_legend (projr (plot_data example_interpolate example_pyplot example_x example_y
         [''A'', ''B''] example_kwargs)) = Some entries \<and>
      map fst entries = [''B'', ''A''])"
proof -
  have "\<not> isl (plot_data example_interpolate example_pyplot example_x example_y
         [''A'', ''B''] example_kwargs)"
    by code_simp
  then have r: "plot_data example_interpolate example_pyplot example_x example_y
         [''A'', ''B''] example_kwargs
     = Inr (projr (plot_data example_interpolate example_pyplot example_x example_y
         [''A'', ''B''] example_kwargs))"
    by (rule Inr_projr)
  have l: "length [''A'', ''B''] = length example_y" and n: "example_y \<noteq> []"
    by (simp_all add: example_y_def)
  from plot_data_legend_order [OF r l n] r l n show ?thesis
    by auto
qed

section \<open>Residuals diagram: the fit and its residuals (diagram\_with\_residues/main.py)\<close>

text \<open>
  Modelled from the spec: \<open>scipy.stats.linregress\<close> is a library function and not code of
  the repository. Section 4.3 of the specification fixes its numeric semantics as the
  standard formulas of ordinary least squares, which are those of the library: with the
  means of \<open>x\<close> and \<open>y\<close>, the slope is the covariance of \<open>x\<close> and \<open>y\<close> over the variance of \<open>x\<close>,
  and the intercept is the mean of \<open>y\<close> minus the slope times the mean of \<open>x\<close>. Of the five
  values the library returns, the slope and the intercept are kept. Inputs of different
  lengths, with fewer than two points or with a constant \<open>x\<close> are refused.
\<close>

definition mean :: "real list \<Rightarrow> real" where
  "mean xs = sum_list xs / real (length xs)"

definition linregress :: "real list \<Rightarrow> real list \<Rightarrow> py_error + real \<times> real" where
  "linregress x y =
     (if length x \<noteq> length y \<or> length x < 2 \<or> list_all (\<lambda>v. v = hd x) x then Inl ValueError
      else let xmean = mean x;
               ymean = mean y;
               ssxm = mean (map (\<lambda>xi. (xi - xmean) * (xi - xmean)) x);
               ssxym = mean (map2 (\<lambda>xi yi. (xi - xmean) * (yi - ymean)) x y);
               slope = ssxym / ssxm;
               intercept = ymean - slope * xmean
           in Inr (slope, intercept))"

text \<open>
  \<^verbatim>\<open>y_residuals = y - (intercept + slope * x)\<close>, elementwise on arrays of one length.
\<close>

definition y_residuals :: "real \<Rightarrow> real \<Rightarrow> real list \<Rightarrow> real list \<Rightarrow> real list" where
  "y_residuals slope intercept x y = map2 (\<lambda>xi yi. yi - (intercept + slope * xi)) x y"

text \<open>
  The squared error of the line with the given slope and intercept on the data, as the
  specification speaks of it: the sum of the squares of \<open>y - (slope x + intercept)\<close>, which
  ordinary least squares minimises.
\<close>

definition spec_squared_error :: "real \<Rightarrow> real \<Rightarrow> real list \<Rightarrow> real list \<Rightarrow> real" where
  "spec_squared_error slope intercept x y =
     sum_list (map2 (\<lambda>xi yi. (yi - (slope * xi + intercept))\<^sup>2) x y)"

text \<open>
  Three points and their least-squares line \<open>y = 5/2 x + 1/2\<close>.
\<close>

definition example_xs :: "real list" where
  "example_xs = [0, 1, 2]"

definition example_ys :: "real list" where
  "example_ys = [1, 2, 6]"

subsection \<open>Sums over the data\<close>

lemma sum_residuals:
  assumes "length x = length y"
  shows "sum_list (y_residuals s c x y) = sum_list y - real (length x) * c - s * sum_list x"
  using assms unfolding y_residuals_def
  by (induction x y rule: list_induct2) (simp_all add: algebra_simps)

lemma sum_residuals_times_x:
  assumes "length x = length y"
  shows "sum_list (map2 (\<lambda>xi ri. ri * xi) x (y_residuals s c x y))
         = sum_list (map2 (\<lambda>xi yi. xi * yi) x y) - c * sum_list x
           - s * sum_list (map (\<lambda>xi. xi * xi) x)"
  using assms unfolding y_residuals_def
  by (induction x y rule: list_induct2) (simp_all add: algebra_simps)

lemma squared_error_shift:
  assumes "length x = length y"
  shows "spec_squared_error (s + d) (c + e) x y
         = spec_squared_error s c x y
           - 2 * d * sum_list (map2 (\<lambda>xi ri. ri * xi) x (y_residuals s c x y))
           - 2 * e * sum_list (y_residuals s c x y)
           + sum_list (map (\<lambda>xi. (d * xi + e)\<^sup>2) x)"
  using assms unfolding y_residuals_def spec_squared_error_def
  by (induction x y rule: list_induct2) (simp_all add: algebra_simps power2_eq_square)

lemma sum_centred_squares:
  "sum_list (map (\<lambda>xi. (xi - m) * (xi - m)) x)
   = sum_list (map (\<lambda>xi. xi * xi) x) - 2 * m * sum_list x + real (length x) * m * m"
  by (induction x) (simp_all add: algebra_simps)

lemma sum_centred_products:
  assumes "length x = length y"
  shows "sum_list (map2 (\<lambda>xi yi. (xi - mx) * (yi - my)) x y)
   = sum_list (map2 (\<lambda>xi yi. xi * yi) x y) - my * sum_list x - mx * sum_list y
     + real (length x) * mx * my"
  using assms
  by (induction x y rule: list_induct2) (simp_all add: algebra_simps)

lemma sum_squares_nonneg: "0 \<le> sum_list (map (\<lambda>xi. (f xi :: real)\<^sup>2) x)"
  by (rule sum_list_nonneg) auto

lemma centred_squares_zero:
  assumes "sum_list (map (\<lambda>xi. (xi - m) * (xi - m)) x) = 0"
  shows "\<forall>v \<in> set x. v = (m :: real)"
proof -
  have "\<forall>v \<in> set (map (\<lambda>xi. (xi - m) * (xi - m)) x). 0 \<le> v"
    by auto
  then have "\<forall>v \<in> set (map (\<lambda>xi. (xi - m) * (xi - m)) x). v = 0"
    using assms by (simp only: sum_list_nonneg_eq_0_iff)
  then show ?thesis
    by auto
qed

subsection \<open>The least-squares line minimises the squared error\<close>

lemma linregress_Inr:
  assumes "linregress x y = Inr (s, c)"
  shows "length x = length y" and "2 \<le> length x" and "\<not> list_all (\<lambda>v. v = hd x) x"
    and "s = mean (map2 (\<lambda>xi yi. (xi - mean x) * (yi - mean y)) x y)
             / mean (map (\<lambda>xi. (xi - mean x) * (xi - mean x)) x)"
    and "c = mean y - s * mean x"
  using assms by (auto simp: linregress_def Let_def split: if_splits)

lemma linregress_returns:
  assumes "length x = length y" and "2 \<le> length x" and "\<not> list_all (\<lambda>v. v = hd x) x"
  shows "\<exists>s c. linregress x y = Inr (s, c)"
  using assms by (simp add: linregress_def Let_def)

lemma not_constant_spread:
  assumes "\<not> list_all (\<lambda>v. v = hd x) x"
  shows "sum_list (map (\<lambda>xi. (xi - m) * (xi - m)) x) \<noteq> (0 :: real)"
proof
  assume "sum_list (map (\<lambda>xi. (xi - m) * (xi - m)) x) = 0"
  then have all: "\<forall>v \<in> set x. v = m"
    by (rule centred_squares_zero)
  from assms have "x \<noteq> []"
    by auto
  then have "hd x \<in> set x"
    by simp
  with all have "hd x = m"
    by simp
  with all have "list_all (\<lambda>v. v = hd x) x"
    by (simp add: list_all_iff)
  with assms show False
    by simp
qed

lemma linregress_normal_equations:
  assumes "linregress x y = Inr (s, c)"
  shows "sum_list (y_residuals s c x y) = 0"
    and "sum_list (map2 (\<lambda>xi ri. ri * xi) x (y_residuals s c x y)) = 0"
proof -
  note f = linregress_Inr [OF assms]
  define N where "N = real (length x)"
  define A where "A = sum_list x"
  define B where "B = sum_list y"
  define P where "P = sum_list (map2 (\<lambda>xi yi. xi * yi) x y)"
  define Q where "Q = sum_list (map (\<lambda>xi. xi * xi) x)"
  have N: "0 < N"
    using f(2) by (cases x) (simp_all add: N_def)
  have Ny: "real (length y) = N"
    using f(1) by (simp add: N_def)
  have mx: "mean x = A / N" and my: "mean y = B / N"
    by (simp_all add: mean_def A_def B_def N_def f(1) [symmetric])
  have "sum_list (map (\<lambda>xi. (xi - A / N) * (xi - A / N)) x)
        = Q - 2 * (A / N) * A + N * (A / N) * (A / N)"
    unfolding Q_def A_def N_def by (rule sum_centred_squares)
  also have "\<dots> = Q - A * A / N"
    using N by (simp add: field_simps)
  finally have sxx: "sum_list (map (\<lambda>xi. (xi - A / N) * (xi - A / N)) x) = Q - A * A / N" .
  have "sum_list (map2 (\<lambda>xi yi. (xi - A / N) * (yi - B / N)) x y)
        = P - B / N * A - A / N * B + N * (A / N) * (B / N)"
    unfolding P_def A_def B_def N_def by (rule sum_centred_products [OF f(1)])
  also have "\<dots> = P - A * B / N"
    using N by (simp add: field_simps)
  finally have sxy: "sum_list (map2 (\<lambda>xi yi. (xi - A / N) * (yi - B / N)) x y) = P - A * B / N" .
  have spread: "Q - A * A / N \<noteq> 0"
    using not_constant_spread [OF f(3), of "A / N"] sxx by simp
  have "mean (map (\<lambda>xi. (xi - A / N) * (xi - A / N)) x)
        = sum_list (map (\<lambda>xi. (xi - A / N) * (xi - A / N)) x) / N"
    by (simp only: mean_def length_map N_def)
  then have mxx: "mean (map (\<lambda>xi. (xi - A / N) * (xi - A / N)) x) = (Q - A * A / N) / N"
    by (simp only: sxx)
  have "mean (map2 (\<lambda>xi yi. (xi - A / N) * (yi - B / N)) x y)
        = sum_list (map2 (\<lambda>xi yi. (xi - A / N) * (yi - B / N)) x y) / N"
    by (simp only: mean_def length_map length_zip f(1) min.idem Ny)
  then have mxy: "mean (map2 (\<lambda>xi yi. (xi - A / N) * (yi - B / N)) x y) = (P - A * B / N) / N"
    by (simp only: sxy)
  have "s = (P - A * B / N) / N / ((Q - A * A / N) / N)"
    by (simp only: f(4) mx my mxx mxy)
  then have s: "s = (P - A * B / N) / (Q - A * A / N)"
    using N by simp
  then have sQ: "s * (Q - A * A / N) = P - A * B / N"
    using spread by simp
  have c: "c = B / N - s * (A / N)"
    by (simp add: f(5) mx my)
  have "sum_list (y_residuals s c x y) = B - N * c - s * A"
    by (simp add: sum_residuals [OF f(1)] A_def B_def N_def)
  also have "\<dots> = 0"
    using N by (simp add: c field_simps)
  finally show "sum_list (y_residuals s c x y) = 0" .
  have "sum_list (map2 (\<lambda>xi ri. ri * xi) x (y_residuals s c x y)) = P - c * A - s * Q"
    by (simp add: sum_residuals_times_x [OF f(1)] A_def P_def Q_def)
  also have "\<dots> = (P - A * B / N) - s * (Q - A * A / N)"
    using N by (simp add: c field_simps)
  also have "\<dots> = 0"
    using sQ by simp
  finally show "sum_list (map2 (\<lambda>xi ri. ri * xi) x (y_residuals s c x y)) = 0" .
qed

lemma linregress_minimises:
  assumes "linregress x y = Inr (s, c)"
  shows "spec_squared_error s c x y \<le> spec_squared_error a b x y"
proof -
  have "spec_squared_error (s + (a - s)) (c + (b - c)) x y
        = spec_squared_error s c x y
          - 2 * (a - s) * sum_list (map2 (\<lambda>xi ri. ri * xi) x (y_residuals s c x y))
          - 2 * (b - c) * sum_list (y_residuals s c x y)
          + sum_list (map (\<lambda>xi. ((a - s) * xi + (b - c))\<^sup>2) x)"
    using linregress_Inr(1) [OF assms] by (rule squared_error_shift)
  then have "spec_squared_error a b x y
        = spec_squared_error s c x y + sum_list (map (\<lambda>xi. ((a - s) * xi + (b - c))\<^sup>2) x)"
    by (simp add: linregress_normal_equations [OF assms])
  then show ?thesis
    using sum_squares_nonneg [of "\<lambda>xi. (a - s) * xi + (b - c)" x] by simp
qed

subsection \<open>Claim on the residuals\<close>

text \<open>
  C4. For sequences \<open>x\<close> and \<open>y\<close> of equal length and a slope and intercept that minimise the
  squared error, the residuals \<open>y - (intercept + slope x)\<close> of the script sum to zero, in
  exact arithmetic. The hypothesis is the claim's own description of the fit; by
  \<open>linregress_minimises\<close>, the least-squares formulas give such a minimiser whenever there
  are at least two points and \<open>x\<close> is not constant.
\<close>

theorem residuals_sum_to_zero:
  assumes "length x = length y"
    and "\<And>a b. spec_squared_error slope intercept x y \<le> spec_squared_error a b x y"
  shows "sum_list (y_residuals slope intercept x y) = 0"
proof (cases "x = []")
  case True
  then show ?thesis
    by (simp add: y_residuals_def)
next
  case False
  define S where "S = sum_list (y_residuals slope intercept x y)"
  define N where "N = real (length x)"
  have N: "0 < N"
    using False by (simp add: N_def)
  have "spec_squared_error slope (intercept + S / N) x y
        = spec_squared_error (slope + 0) (intercept + S / N) x y"
    by simp
  also have "\<dots> = spec_squared_error slope intercept x y - 2 * (S / N) * S + N * (S / N)\<^sup>2"
    by (simp only: squared_error_shift [OF assms(1)])
      (simp add: S_def N_def sum_list_triv)
  also have "\<dots> = spec_squared_error slope intercept x y - S\<^sup>2 / N"
    using N by (simp add: power2_eq_square field_simps)
  finally have "spec_squared_error slope intercept x y \<le> spec_squared_error slope intercept x y - S\<^sup>2 / N"
    using assms(2) [of slope "intercept + S / N"] by simp
  then have "S\<^sup>2 / N \<le> 0"
    by simp
  then have "S\<^sup>2 \<le> 0"
    using N by (simp add: divide_le_0_iff)
  then show ?thesis
    by (simp add: S_def)
qed

lemma example_fit: "linregress example_xs example_ys = Inr (5 / 2, 1 / 2)"
  by (simp add: linregress_def example_xs_def example_ys_def mean_def Let_def)

theorem residuals_sum_to_zero_witness:
  "length example_xs = length example_ys \<and>
   (\<forall>a b. spec_squared_error (5 / 2) (1 / 2) example_xs example_ys
            \<le> spec_squared_error a b example_xs example_ys) \<and>
   y_residuals (5 / 2) (1 / 2) example_xs example_ys = [1 / 2, - 1, 1 / 2] \<and>
   sum_list (y_residuals (5 / 2) (1 / 2) example_xs example_ys) = 0"
proof -
  have l: "length example_xs = length example_ys"
    by (simp add: example_xs_def example_ys_def)
  have m: "spec_squared_error (5 / 2) (1 / 2) example_xs example_ys
            \<le> spec_squared_error a b example_xs example_ys" for a b
  proof -
    have least: "spec_squared_error (5 / 2) (1 / 2) example_xs example_ys = 3 / 2"
      by (simp add: spec_squared_error_def example_xs_def example_ys_def power2_eq_square)
    have "3 / 2 \<le> 3 / 2 + ((b - 1 / 2)\<^sup>2 + (a + b - 3)\<^sup>2 + (2 * a + b - 11 / 2)\<^sup>2)"
      by simp
    also have "\<dots> = spec_squared_error a b example_xs example_ys"
      by (simp add: spec_squared_error_def example_xs_def example_ys_def power2_eq_square
          algebra_simps)
    finally show ?thesis
      by (simp only: least)
  qed
  have r: "y_residuals (5 / 2) (1 / 2) example_xs example_ys = [1 / 2, - 1, 1 / 2]"
    by (simp add: y_residuals_def example_xs_def example_ys_def)
  from residuals_sum_to_zero [OF l m] l m r show ?thesis
    by blast
qed

end
